theory Spec2Isabelle
  imports
    Main
    "HOL-Library.Word"
    "HOL-Library.Char_ord"
    "HOL-Library.List_Lexorder"
    "HOL-Library.Multiset"
begin

unbundle bit_operations_syntax

section \<open>The network interface monitor (network-monitor.h, network-monitor.cpp)\<close>

subsection \<open>Data\<close>

text \<open>
  \<^verbatim>\<open>struct NetworkInterface\<close> of network-monitor.h, field by field.
\<close>

record NetworkInterface =
  name :: string
  ipAddress :: string
  isWireless :: bool
  isEthernet :: bool
  isModem :: bool
  isActive :: bool

text \<open>
  What \<^verbatim>\<open>getifaddrs\<close> hands to the program. An IPv4 address is kept as its four
  octets in network order; a socket address is its family and, for \<^verbatim>\<open>AF_INET\<close>, the
  address (\<^verbatim>\<open>struct sockaddr_in\<close>); one node of the \<^verbatim>\<open>ifaddrs\<close> chain has
  the interface name, the interface flags (\<^verbatim>\<open>unsigned int\<close>) and a possibly null
  \<^verbatim>\<open>ifa_addr\<close>. The chain linked through \<^verbatim>\<open>ifa_next\<close> is a list, and the call
  as a whole either fails (\<^verbatim>\<open>-1\<close>, here \<open>None\<close>) or yields the chain.
\<close>

datatype in_addr = In_addr "8 word" "8 word" "8 word" "8 word"

record sockaddr =
  sa_family :: "16 word"
  sin_addr :: in_addr

record ifaddrs =
  ifa_name :: string
  ifa_flags :: "32 word"
  ifa_addr :: "sockaddr option"

type_synonym getifaddrs_result = "ifaddrs list option"

text \<open>The constants of the Linux headers the code uses.\<close>

definition AF_INET :: "16 word" where
  "AF_INET = 2"

definition IFF_UP :: "32 word" where
  "IFF_UP = 0x1"

definition IFF_LOOPBACK :: "32 word" where
  "IFF_LOOPBACK = 0x8"

definition IFF_RUNNING :: "32 word" where
  "IFF_RUNNING = 0x40"

text \<open>
  A registered callback is a \<^verbatim>\<open>std::function<void(const std::vector<NetworkInterface>&)>\<close>:
  code of the host. Its body is a sequence of steps. A step either works on the
  host's own state, of type \<open>'w\<close>, given the snapshot the callback was called with, or
  calls one of the monitor's methods that take \<^verbatim>\<open>m_mutex\<close>
  (\<^verbatim>\<open>saveIpListToFile\<close>, \<^verbatim>\<open>getNetworkInterfaces\<close>) and goes on according to what
  the call returns. Calls of \<^verbatim>\<open>start\<close>, \<^verbatim>\<open>stop\<close>, \<^verbatim>\<open>registerCallback\<close> and
  \<^verbatim>\<open>detectNetworkInterfaces\<close> from inside a callback are not part of the model;
  the callback this repository registers makes none.
\<close>

datatype 'w NetworkChangeCallback =
    Return
  | Host "NetworkInterface list \<Rightarrow> 'w \<Rightarrow> 'w" "'w NetworkChangeCallback"
  | Call_saveIpListToFile string "bool \<Rightarrow> 'w NetworkChangeCallback"
  | Call_getNetworkInterfaces "NetworkInterface list \<Rightarrow> 'w NetworkChangeCallback"

text \<open>
  What becomes of a call: it returns, or the calling thread waits for ever for a
  mutex that is never released. Either way the state reached is kept.
\<close>

datatype 'a outcome = Returns 'a | Blocks 'a

text \<open>
  The private members of \<^verbatim>\<open>class NetworkMonitor\<close>. The mutex is not a field: in
  the run of one thread it is held exactly while \<^verbatim>\<open>notifyNetworkChange\<close> runs the
  callbacks, and free whenever a method is entered from outside a callback.
\<close>

record 'w NetworkMonitor =
  m_running :: bool
  m_interfaces :: "NetworkInterface list"
  m_callbacks :: "'w NetworkChangeCallback list"

text \<open>
  What the monitor acts on outside itself: the contents of the files, which paths
  an \<^verbatim>\<open>std::ofstream\<close> can open for writing, how many of the bytes written to a
  stream opened on a path reach the file before a write fails (on a full file
  system, none), what has been written to \<^verbatim>\<open>std::cout\<close>, how many detached
  threads running \<^verbatim>\<open>monitorThread\<close> have been launched, and the host's state the
  callbacks act on.
\<close>

record 'w env =
  files :: "string \<Rightarrow> string option"
  can_open :: "string \<Rightarrow> bool"
  write_limit :: "string \<Rightarrow> nat"
  cout :: string
  poll_loops :: nat
  host :: 'w

definition endl :: string where
  "endl = [CHR 0x0A]"

subsection \<open>Library functions the code calls\<close>

text \<open>\<^verbatim>\<open>s.find(p) == 0\<close> on \<^verbatim>\<open>std::string\<close>: \<open>p\<close> occurs at position 0 of \<open>s\<close>.\<close>

definition find_at_0 :: "string \<Rightarrow> string \<Rightarrow> bool" where
  "find_at_0 s p = (take (length p) s = p)"

text \<open>
  \<^verbatim>\<open>inet_ntop(AF_INET, ...)\<close> of the C library: the four octets in decimal, without
  leading zeros, separated by dots. The buffer of \<^verbatim>\<open>INET_ADDRSTRLEN\<close> bytes holds
  the longest such text, so the call does not fail.
\<close>

definition digit_char :: "nat \<Rightarrow> char" where
  "digit_char d = ''0123456789'' ! d"

definition dec_octet :: "8 word \<Rightarrow> string" where
  "dec_octet w =
     (let n = unat w in
        (if 100 \<le> n then [digit_char (n div 100)] else []) @
        (if 10 \<le> n then [digit_char ((n div 10) mod 10)] else []) @
        [digit_char (n mod 10)])"

fun inet_ntop :: "in_addr \<Rightarrow> string" where
  "inet_ntop (In_addr a b c d) =
     dec_octet a @ ''.'' @ dec_octet b @ ''.'' @ dec_octet c @ ''.'' @ dec_octet d"

subsection \<open>Construction, start, stop\<close>

definition NetworkMonitor_new :: "'w NetworkMonitor" where
  "NetworkMonitor_new = \<lparr>m_running = False, m_interfaces = [], m_callbacks = []\<rparr>"

text \<open>
  \<^verbatim>\<open>start\<close> returns at once when \<^verbatim>\<open>m_running\<close> is set; otherwise it sets the
  flag and launches one detached thread, counted in \<open>poll_loops\<close>.
\<close>

definition start :: "'w NetworkMonitor \<Rightarrow> 'w env \<Rightarrow> 'w NetworkMonitor \<times> 'w env" where
  "start this e =
     (if m_running this then (this, e)
      else (this\<lparr>m_running := True\<rparr>, e\<lparr>poll_loops := Suc (poll_loops e)\<rparr>))"

definition stop :: "'w NetworkMonitor \<Rightarrow> 'w env \<Rightarrow> 'w NetworkMonitor \<times> 'w env" where
  "stop this e = (this\<lparr>m_running := False\<rparr>, e)"

definition getNetworkInterfaces ::
  "'w NetworkMonitor \<Rightarrow> 'w env \<Rightarrow> NetworkInterface list \<times> 'w NetworkMonitor \<times> 'w env" where
  "getNetworkInterfaces this e = (m_interfaces this, this, e)"

definition registerCallback ::
  "'w NetworkChangeCallback \<Rightarrow> 'w NetworkMonitor \<Rightarrow> 'w env \<Rightarrow> 'w NetworkMonitor \<times> 'w env" where
  "registerCallback callback this e = (this\<lparr>m_callbacks := m_callbacks this @ [callback]\<rparr>, e)"

subsection \<open>detectNetworkInterfaces\<close>

text \<open>
  The body of the \<^verbatim>\<open>for\<close> loop over the chain: a null \<^verbatim>\<open>ifa_addr\<close> and a family
  other than \<^verbatim>\<open>AF_INET\<close> are passed over; the entry is filled in; an entry named
  \<^verbatim>\<open>lo\<close> or flagged \<^verbatim>\<open>IFF_LOOPBACK\<close> is passed over; the address text is set and
  the entry is appended (\<^verbatim>\<open>push_back\<close>).
\<close>

fun detect_loop :: "ifaddrs list \<Rightarrow> NetworkInterface list \<Rightarrow> NetworkInterface list" where
  "detect_loop [] interfaces = interfaces"
| "detect_loop (ifa # ifa_next) interfaces =
     (case ifa_addr ifa of
        None \<Rightarrow> detect_loop ifa_next interfaces
      | Some sa \<Rightarrow>
          if sa_family sa = AF_INET then
            (let nm = ifa_name ifa;
                 interface = \<lparr>name = nm, ipAddress = [],
                   isWireless = (find_at_0 nm ''wlan'' \<or> find_at_0 nm ''wifi'' \<or> find_at_0 nm ''wl''),
                   isEthernet = (find_at_0 nm ''eth'' \<or> find_at_0 nm ''en'' \<or>
                                 find_at_0 nm ''eno'' \<or> find_at_0 nm ''enp''),
                   isModem = (find_at_0 nm ''ppp'' \<or> find_at_0 nm ''tun'' \<or> find_at_0 nm ''tap''),
                   isActive = (ifa_flags ifa AND IFF_UP \<noteq> 0 \<and> ifa_flags ifa AND IFF_RUNNING \<noteq> 0)\<rparr>
             in if nm = ''lo'' \<or> ifa_flags ifa AND IFF_LOOPBACK \<noteq> 0
                then detect_loop ifa_next interfaces
                else detect_loop ifa_next
                       (interfaces @ [interface\<lparr>ipAddress := inet_ntop (sin_addr sa)\<rparr>]))
          else detect_loop ifa_next interfaces)"

definition detectNetworkInterfaces ::
  "getifaddrs_result \<Rightarrow> 'w NetworkMonitor \<Rightarrow> 'w env \<Rightarrow>
     NetworkInterface list \<times> 'w NetworkMonitor \<times> 'w env" where
  "detectNetworkInterfaces g this e =
     (case g of
        None \<Rightarrow> ([], this, e)
      | Some ifaddr \<Rightarrow> (detect_loop ifaddr [], this, e))"

subsection \<open>haveInterfacesChanged\<close>

text \<open>The two extraction loops: the addresses of the active, addressed, non-loopback entries.\<close>

fun extract_ips :: "NetworkInterface list \<Rightarrow> string list \<Rightarrow> string list" where
  "extract_ips [] ips = ips"
| "extract_ips (iface # rest) ips =
     (if isActive iface \<and> ipAddress iface \<noteq> [] \<and> ipAddress iface \<noteq> ''127.0.0.1''
         \<and> name iface \<noteq> ''lo''
      then extract_ips rest (ips @ [ipAddress iface])
      else extract_ips rest ips)"

text \<open>The element-wise loop, entered only when the two sizes are equal.\<close>

function compare_from :: "nat \<Rightarrow> string list \<Rightarrow> string list \<Rightarrow> bool" where
  "compare_from i oldIps newIps =
     (if i < length oldIps then
        (if oldIps ! i \<noteq> newIps ! i then True else compare_from (Suc i) oldIps newIps)
      else False)"
  by pat_completeness auto
termination
  by (relation "measure (\<lambda>(i, oldIps, newIps). length oldIps - i)") auto

declare compare_from.simps [simp del]

text \<open>
  \<^verbatim>\<open>std::sort\<close> on strings orders them by \<^verbatim>\<open>operator<\<close>, the lexicographic order
  on bytes; strings that compare equal are the same string, so the sorted vector is
  the one sorted arrangement of its elements.
\<close>

definition haveInterfacesChanged :: "NetworkInterface list \<Rightarrow> NetworkInterface list \<Rightarrow> bool" where
  "haveInterfacesChanged oldInterfaces newInterfaces =
     (let oldIps = sort (extract_ips oldInterfaces []);
          newIps = sort (extract_ips newInterfaces [])
      in if length oldIps \<noteq> length newIps then True
         else compare_from 0 oldIps newIps)"

subsection \<open>saveIpListToFile\<close>

text \<open>
  The loop over the detected entries; it carries what has been written to the
  stream, the text for the log line, and the flag.
\<close>

fun write_loop :: "NetworkInterface list \<Rightarrow> string \<times> string \<times> bool \<Rightarrow> string \<times> string \<times> bool" where
  "write_loop [] acc = acc"
| "write_loop (interface # rest) (file, foundIps, atLeastOneIp) =
     (if ipAddress interface = ''127.0.0.1'' \<or> name interface = ''lo''
      then write_loop rest (file, foundIps, atLeastOneIp)
      else if isActive interface \<and> ipAddress interface \<noteq> []
      then write_loop rest
             (file @ ipAddress interface @ ''\<newline>'',
              foundIps @ name interface @ ''('' @ ipAddress interface @ '') '',
              True)
      else write_loop rest (file, foundIps, atLeastOneIp))"

text \<open>
  Opening the \<^verbatim>\<open>std::ofstream\<close> truncates the file. The function never tests the
  stream after the open: a write that fails sets the stream's error state, the
  writes after it do nothing, and the function goes on to return \<^verbatim>\<open>true\<close>. What is
  in the file when the function returns is the part of the written text that
  reached it, the first \<open>write_limit e filePath\<close> bytes.
\<close>

definition saveIpListToFile ::
  "getifaddrs_result \<Rightarrow> string \<Rightarrow> 'w NetworkMonitor \<Rightarrow> 'w env \<Rightarrow>
     bool \<times> 'w NetworkMonitor \<times> 'w env" where
  "saveIpListToFile g filePath this e =
     (case detectNetworkInterfaces g this e of (interfaces, this1, e1) \<Rightarrow>
        let this2 = this1\<lparr>m_interfaces := interfaces\<rparr> in
        if \<not> can_open e1 filePath then (False, this2, e1)
        else
          (case write_loop interfaces ([], [], False) of (file, foundIps, atLeastOneIp) \<Rightarrow>
             let e2 = e1\<lparr>files := (files e1)(filePath \<mapsto> take (write_limit e1 filePath) file)\<rparr> in
             if \<not> atLeastOneIp
             then (True, this2,
                   e2\<lparr>cout := cout e2 @ ''No non-loopback network interfaces found'' @ endl\<rparr>)
             else (True, this2,
                   e2\<lparr>cout := cout e2 @ ''Found network interfaces: '' @ foundIps @ endl\<rparr>)))"

subsection \<open>notifyNetworkChange and monitorThread\<close>

text \<open>
  Running the body of one callback while \<^verbatim>\<open>m_mutex\<close> is held by the thread that
  runs it. A step on the host state is taken. A call of a method that takes the
  mutex reaches that method's \<^verbatim>\<open>std::lock_guard\<close> with the mutex held by the very
  thread that asks for it, and \<^verbatim>\<open>std::mutex\<close> is not recursive: the call does not
  return, and neither does the callback. (\<^verbatim>\<open>saveIpListToFile\<close> runs its detection
  before it asks for the mutex; the detection changes nothing.)
\<close>

primrec run_callback ::
  "'w NetworkChangeCallback \<Rightarrow> NetworkInterface list \<Rightarrow> 'w \<Rightarrow> 'w outcome" where
  "run_callback Return interfaces w = Returns w"
| "run_callback (Host f rest) interfaces w = run_callback rest interfaces (f interfaces w)"
| "run_callback (Call_saveIpListToFile filePath rest) interfaces w = Blocks w"
| "run_callback (Call_getNetworkInterfaces rest) interfaces w = Blocks w"

text \<open>The \<^verbatim>\<open>for\<close> loop over \<^verbatim>\<open>m_callbacks\<close>: the next callback is called when this one has returned.\<close>

fun run_callbacks ::
  "'w NetworkChangeCallback list \<Rightarrow> NetworkInterface list \<Rightarrow> 'w \<Rightarrow> 'w outcome" where
  "run_callbacks [] interfaces w = Returns w"
| "run_callbacks (callback # rest) interfaces w =
     (case run_callback callback interfaces w of
        Returns w' \<Rightarrow> run_callbacks rest interfaces w'
      | Blocks w' \<Rightarrow> Blocks w')"

text \<open>
  \<^verbatim>\<open>notifyNetworkChange\<close> takes the mutex, copies \<^verbatim>\<open>m_interfaces\<close> and calls the
  callbacks with the copy, all inside the one locked scope.
\<close>

definition notifyNetworkChange ::
  "'w NetworkMonitor \<Rightarrow> 'w env \<Rightarrow> ('w NetworkMonitor \<times> 'w env) outcome" where
  "notifyNetworkChange this e =
     (let interfaces = m_interfaces this
      in case run_callbacks (m_callbacks this) interfaces (host e) of
           Returns w \<Rightarrow> Returns (this, e\<lparr>host := w\<rparr>)
         | Blocks w \<Rightarrow> Blocks (this, e\<lparr>host := w\<rparr>))"

text \<open>
  One pass through the body of the \<^verbatim>\<open>while\<close> loop, up to the sleep. The local
  \<^verbatim>\<open>lastInterfaces\<close> is passed in and returned; when the notification does not
  return, the assignment to it is never reached. The pass is taken as the loop's
  thread runs it, with no other thread acting between the store of
  \<^verbatim>\<open>m_interfaces\<close> and the notification.
\<close>

definition monitor_iteration ::
  "getifaddrs_result \<Rightarrow> NetworkInterface list \<Rightarrow> 'w NetworkMonitor \<Rightarrow> 'w env \<Rightarrow>
     (NetworkInterface list \<times> 'w NetworkMonitor \<times> 'w env) outcome" where
  "monitor_iteration g lastInterfaces this e =
     (case detectNetworkInterfaces g this e of (currentInterfaces, this1, e1) \<Rightarrow>
        if haveInterfacesChanged lastInterfaces currentInterfaces then
          (case notifyNetworkChange (this1\<lparr>m_interfaces := currentInterfaces\<rparr>) e1 of
             Returns (this2, e2) \<Rightarrow> Returns (currentInterfaces, this2, e2)
           | Blocks (this2, e2) \<Rightarrow> Blocks (lastInterfaces, this2, e2))
        else Returns (currentInterfaces, this1, e1))"

text \<open>
  The loop runs as long as \<^verbatim>\<open>m_running\<close> is set, which only another thread can
  clear. Each element of \<open>ticks\<close> is one pass as the loop meets it: what
  \<^verbatim>\<open>getifaddrs\<close> answers in that pass, and whether \<^verbatim>\<open>stop\<close> is called during
  the sleep that follows. The list is the observed part of the run; the function
  returns \<^verbatim>\<open>lastInterfaces\<close> and the state at the point where the loop has left
  or the list is used up, and a pass that does not return ends the run of the
  thread where it stands.
\<close>

fun monitorThread_loop ::
  "(getifaddrs_result \<times> bool) list \<Rightarrow> NetworkInterface list \<Rightarrow> 'w NetworkMonitor \<Rightarrow> 'w env \<Rightarrow>
     (NetworkInterface list \<times> 'w NetworkMonitor \<times> 'w env) outcome" where
  "monitorThread_loop [] lastInterfaces this e = Returns (lastInterfaces, this, e)"
| "monitorThread_loop ((g, stop_called) # ticks) lastInterfaces this e =
     (if m_running this then
        (case monitor_iteration g lastInterfaces this e of
           Returns (lastInterfaces', this1, e1) \<Rightarrow>
             if stop_called
             then (case stop this1 e1 of (this2, e2) \<Rightarrow> monitorThread_loop ticks lastInterfaces' this2 e2)
             else monitorThread_loop ticks lastInterfaces' this1 e1
         | Blocks s \<Rightarrow> Blocks s)
      else Returns (lastInterfaces, this, e))"

definition monitorThread ::
  "(getifaddrs_result \<times> bool) list \<Rightarrow> 'w NetworkMonitor \<Rightarrow> 'w env \<Rightarrow>
     (NetworkInterface list \<times> 'w NetworkMonitor \<times> 'w env) outcome" where
  "monitorThread ticks this e = monitorThread_loop ticks [] this e"

subsection \<open>The callback the host registers (srtla-relay.cpp)\<close>

text \<open>
  The members of \<^verbatim>\<open>class SrtlaRelay\<close> that \<^verbatim>\<open>onNetworkChange\<close> reads and the
  effects it has: the lines given to \<^verbatim>\<open>blog\<close> and the commands given to
  \<^verbatim>\<open>system\<close>.
\<close>

record SrtlaRelay =
  m_processRunning :: bool
  blog :: "string list"
  system_calls :: "string list"

text \<open>
  \<^verbatim>\<open>SrtlaRelay::onNetworkChange\<close>, which the constructor registers with the path
  \<^verbatim>\<open>m_ipListPath\<close>: a log line, the call of \<^verbatim>\<open>saveIpListToFile\<close> with a log line
  for either result, and the signal to the relay process when one is running.
\<close>

definition onNetworkChange :: "string \<Rightarrow> SrtlaRelay NetworkChangeCallback" where
  "onNetworkChange m_ipListPath =
     Host (\<lambda>interfaces r. r\<lparr>blog := blog r @ [''Network change detected - updating IP bank file'']\<rparr>)
       (Call_saveIpListToFile m_ipListPath (\<lambda>ok.
          Host (\<lambda>interfaces r.
                  if ok then r\<lparr>blog := blog r @ [''IP bank file updated successfully'']\<rparr>
                  else r\<lparr>blog := blog r @ [''Failed to update IP bank file after network change'']\<rparr>)
            (Host (\<lambda>interfaces r.
                     if m_processRunning r
                     then r\<lparr>blog := blog r @ [''Sending HUP signal to SRTLA process to reload IP list'',
                                              ''HUP signal sent to reload IP list''],
                            system_calls := system_calls r @ [''killall -HUP srtla_send'']\<rparr>
                     else r)
               Return)))"

subsection \<open>Derived notions used in the statements\<close>

text \<open>
  The test both consumers apply to an entry: \<^verbatim>\<open>haveInterfacesChanged\<close> in one
  condition, \<^verbatim>\<open>saveIpListToFile\<close> in two steps.
\<close>

definition relevant :: "NetworkInterface \<Rightarrow> bool" where
  "relevant iface =
     (isActive iface \<and> ipAddress iface \<noteq> [] \<and> ipAddress iface \<noteq> ''127.0.0.1''
      \<and> name iface \<noteq> ''lo'')"

text \<open>
  The derived set as the specification words it (section 3 of the specification):
  the entries of a snapshot that are active, have an address, and whose address is
  not \<^verbatim>\<open>127.0.0.1\<close>, in the order of the snapshot.
\<close>

definition RelevantInterfaceSet :: "NetworkInterface list \<Rightarrow> NetworkInterface list" where
  "RelevantInterfaceSet snapshot =
     filter (\<lambda>i. isActive i \<and> ipAddress i \<noteq> [] \<and> ipAddress i \<noteq> ''127.0.0.1'') snapshot"

text \<open>
  Whether the body of a callback reaches a call of a method that takes the mutex,
  and what its steps before that point, or all its steps if there is none, do to
  the host state.
\<close>

primrec calls_monitor :: "'w NetworkChangeCallback \<Rightarrow> bool" where
  "calls_monitor Return = False"
| "calls_monitor (Host f rest) = calls_monitor rest"
| "calls_monitor (Call_saveIpListToFile filePath rest) = True"
| "calls_monitor (Call_getNetworkInterfaces rest) = True"

primrec host_effect ::
  "'w NetworkChangeCallback \<Rightarrow> NetworkInterface list \<Rightarrow> 'w \<Rightarrow> 'w" where
  "host_effect Return interfaces w = w"
| "host_effect (Host f rest) interfaces w = host_effect rest interfaces (f interfaces w)"
| "host_effect (Call_saveIpListToFile filePath rest) interfaces w = w"
| "host_effect (Call_getNetworkInterfaces rest) interfaces w = w"

text \<open>
  One enumeration pass as the specification describes a snapshot (sections 3 and 4
  of the specification): an entry for each IPv4 address of an interface that is not
  the loopback interface (name \<^verbatim>\<open>lo\<close>, or the loopback flag of the system), in
  the order of the enumeration; its name is the interface's, its address the
  dotted-decimal text, it is active when the system reports the interface up and
  running, and the three classes are read off the name's prefix.
\<close>

definition has_prefix_of :: "string list \<Rightarrow> string \<Rightarrow> bool" where
  "has_prefix_of ps nm = list_ex (\<lambda>p. take (length p) nm = p) ps"

definition enumerated_entry :: "ifaddrs \<Rightarrow> NetworkInterface option" where
  "enumerated_entry ifa =
     (case ifa_addr ifa of
        None \<Rightarrow> None
      | Some sa \<Rightarrow>
          if sa_family sa = AF_INET \<and> ifa_name ifa \<noteq> ''lo'' \<and> ifa_flags ifa AND IFF_LOOPBACK = 0
          then Some \<lparr>name = ifa_name ifa,
                     ipAddress = inet_ntop (sin_addr sa),
                     isWireless = has_prefix_of [''wlan'', ''wifi'', ''wl''] (ifa_name ifa),
                     isEthernet = has_prefix_of [''eth'', ''en'', ''eno'', ''enp''] (ifa_name ifa),
                     isModem = has_prefix_of [''ppp'', ''tun'', ''tap''] (ifa_name ifa),
                     isActive = (ifa_flags ifa AND IFF_UP \<noteq> 0 \<and> ifa_flags ifa AND IFF_RUNNING \<noteq> 0)\<rparr>
          else None)"

text \<open>
  What a dotted-decimal IPv4 address is, as a recogniser on text that owes nothing
  to \<open>inet_ntop\<close>: four fields separated by dots, each a decimal numeral below 256
  without a leading zero.
\<close>

definition is_digit :: "char \<Rightarrow> bool" where
  "is_digit c = (c \<in> set ''0123456789'')"

definition digit_value :: "char \<Rightarrow> nat" where
  "digit_value c = length (takeWhile (\<lambda>d. d \<noteq> c) ''0123456789'')"

definition decimal_value :: "string \<Rightarrow> nat" where
  "decimal_value s = foldl (\<lambda>v c. 10 * v + digit_value c) 0 s"

definition is_octet_text :: "string \<Rightarrow> bool" where
  "is_octet_text s =
     (s \<noteq> [] \<and> list_all is_digit s \<and> (s = ''0'' \<or> hd s \<noteq> CHR ''0'') \<and> decimal_value s < 256)"

fun split_dots :: "string \<Rightarrow> string list" where
  "split_dots [] = [[]]"
| "split_dots (c # cs) =
     (if c = CHR ''.'' then [] # split_dots cs
      else (case split_dots cs of [] \<Rightarrow> [[c]] | f # fs \<Rightarrow> (c # f) # fs))"

definition is_dotted_decimal :: "string \<Rightarrow> bool" where
  "is_dotted_decimal s = (length (split_dots s) = 4 \<and> list_all is_octet_text (split_dots s))"

subsection \<open>Sample hosts\<close>

text \<open>
  An environment in which one path can be opened for writing and has room for a
  page of text, and the entries a
  Linux host reports: one link-level entry per interface (family 17) and one
  \<^verbatim>\<open>AF_INET\<close> entry per IPv4 address.
\<close>

definition ex_env :: "'w \<Rightarrow> 'w env" where
  "ex_env w = \<lparr>files = (\<lambda>p. None), can_open = (\<lambda>p. p = ''/tmp/ip_bank.txt''),
     write_limit = (\<lambda>p. 4096), cout = [], poll_loops = 0, host = w\<rparr>"

text \<open>The same environment on a full file system: a file can be created, nothing can be written.\<close>

definition ex_env_full :: "'w \<Rightarrow> 'w env" where
  "ex_env_full w = \<lparr>files = (\<lambda>p. None), can_open = (\<lambda>p. p = ''/tmp/ip_bank.txt''),
     write_limit = (\<lambda>p. 0), cout = [], poll_loops = 0, host = w\<rparr>"

definition ex_link :: "string \<Rightarrow> 32 word \<Rightarrow> ifaddrs" where
  "ex_link nm flags = \<lparr>ifa_name = nm, ifa_flags = flags,
     ifa_addr = Some \<lparr>sa_family = 17, sin_addr = In_addr 0 0 0 0\<rparr>\<rparr>"

definition ex_inet :: "string \<Rightarrow> 32 word \<Rightarrow> in_addr \<Rightarrow> ifaddrs" where
  "ex_inet nm flags a = \<lparr>ifa_name = nm, ifa_flags = flags,
     ifa_addr = Some \<lparr>sa_family = AF_INET, sin_addr = a\<rparr>\<rparr>"

text \<open>\<^verbatim>\<open>lo\<close> and \<^verbatim>\<open>eth0\<close> up and running, \<^verbatim>\<open>wlan0\<close> down without an address.\<close>

definition ex_host :: "ifaddrs list" where
  "ex_host = [ex_link ''lo'' 0x10049, ex_link ''eth0'' 0x11043, ex_link ''wlan0'' 0x1002,
              ex_inet ''lo'' 0x10049 (In_addr 127 0 0 1),
              ex_inet ''eth0'' 0x11043 (In_addr 192 168 1 5)]"

text \<open>The same host with the cable of \<^verbatim>\<open>eth0\<close> pulled: up, not running, address kept.\<close>

definition ex_host_unplugged :: "ifaddrs list" where
  "ex_host_unplugged = [ex_link ''lo'' 0x10049, ex_link ''eth0'' 0x1003,
              ex_inet ''lo'' 0x10049 (In_addr 127 0 0 1),
              ex_inet ''eth0'' 0x1003 (In_addr 192 168 1 5)]"

definition ex_eth0 :: NetworkInterface where
  "ex_eth0 = \<lparr>name = ''eth0'', ipAddress = ''192.168.1.5'', isWireless = False,
     isEthernet = True, isModem = False, isActive = True\<rparr>"

definition ex_running :: "'w NetworkMonitor" where
  "ex_running = \<lparr>m_running = True, m_interfaces = [], m_callbacks = []\<rparr>"

text \<open>A host on which \<^verbatim>\<open>eth0\<close> and \<^verbatim>\<open>wlan0\<close> carry the same address.\<close>

definition ex_host_twin :: "ifaddrs list" where
  "ex_host_twin = [ex_inet ''lo'' 0x10049 (In_addr 127 0 0 1),
              ex_inet ''eth0'' 0x11043 (In_addr 192 168 1 5),
              ex_inet ''wlan0'' 0x11043 (In_addr 192 168 1 5)]"

definition ex_wlan0 :: NetworkInterface where
  "ex_wlan0 = \<lparr>name = ''wlan0'', ipAddress = ''192.168.1.9'', isWireless = True,
     isEthernet = False, isModem = False, isActive = True\<rparr>"

text \<open>A callback that records, in the host state, who was called with what.\<close>

definition ex_log :: "nat \<Rightarrow> (nat \<times> NetworkInterface list) list NetworkChangeCallback" where
  "ex_log k = Host (\<lambda>interfaces w. w @ [(k, interfaces)]) Return"

text \<open>
  The host as \<^verbatim>\<open>SrtlaRelay\<close> sets it up: no relay process yet, nothing logged, and
  a running monitor on which \<^verbatim>\<open>onNetworkChange\<close> was registered first and a second
  callback, which only logs, after it.
\<close>

definition ex_relay :: SrtlaRelay where
  "ex_relay = \<lparr>m_processRunning = False, blog = [], system_calls = []\<rparr>"

definition ex_second :: "SrtlaRelay NetworkChangeCallback" where
  "ex_second = Host (\<lambda>interfaces r. r\<lparr>blog := blog r @ [''second callback'']\<rparr>) Return"

definition ex_relay_monitor :: "SrtlaRelay NetworkMonitor" where
  "ex_relay_monitor =
     fst (registerCallback ex_second
            (fst (registerCallback (onNetworkChange ''/tmp/ip_bank.txt'') ex_running (ex_env ex_relay)))
            (ex_env ex_relay))"

section \<open>Properties\<close>

subsection \<open>The loops in closed form\<close>

lemmas ex_defs = ex_env_def ex_env_full_def ex_link_def ex_inet_def ex_host_def ex_host_unplugged_def ex_eth0_def
  ex_running_def AF_INET_def IFF_UP_def IFF_LOOPBACK_def IFF_RUNNING_def find_at_0_def
  dec_octet_def digit_char_def detectNetworkInterfaces_def NetworkMonitor_new_def

lemma detect_ex_host:
  "fst (detectNetworkInterfaces (Some ex_host) this e) = [ex_eth0]"
  by (simp add: ex_defs)

lemma detect_ex_host_unplugged:
  "fst (detectNetworkInterfaces (Some ex_host_unplugged) this e) = [ex_eth0\<lparr>isActive := False\<rparr>]"
  by (simp add: ex_defs)

lemma detectNetworkInterfaces_triple:
  "\<exists>ifs. detectNetworkInterfaces g this e = (ifs, this, e)"
  by (cases g) (simp_all add: detectNetworkInterfaces_def)

lemma extract_ips_filter: "extract_ips l ips = ips @ map ipAddress (filter relevant l)"
  by (induction l arbitrary: ips) (simp_all add: relevant_def)

lemma write_loop_eq:
  "write_loop l (out, foundIps, atLeastOneIp) =
     (out @ concat (map (\<lambda>ip. ip @ ''\<newline>'') (extract_ips l [])),
      foundIps @ concat (map (\<lambda>i. name i @ ''('' @ ipAddress i @ '') '') (filter relevant l)),
      atLeastOneIp \<or> extract_ips l [] \<noteq> [])"
  by (induction l arbitrary: out foundIps atLeastOneIp) (auto simp: extract_ips_filter relevant_def)

lemma mset_extract_ips_perm:
  assumes "mset xs = mset ys"
  shows "mset (extract_ips xs []) = mset (extract_ips ys [])"
proof -
  have "mset (map ipAddress (filter relevant xs)) = image_mset ipAddress (filter_mset relevant (mset xs))"
    by simp
  also have "\<dots> = image_mset ipAddress (filter_mset relevant (mset ys))"
    using assms by simp
  also have "\<dots> = mset (map ipAddress (filter relevant ys))"
    by simp
  finally show ?thesis by (simp add: extract_ips_filter)
qed

lemma compare_from_drop:
  "length oldIps = length newIps \<Longrightarrow> compare_from i oldIps newIps \<longleftrightarrow> drop i oldIps \<noteq> drop i newIps"
proof (induction i oldIps newIps rule: compare_from.induct)
  case (1 i oldIps newIps)
  show ?case
  proof (cases "i < length oldIps")
    case True
    then have d: "drop i oldIps = oldIps ! i # drop (Suc i) oldIps"
      "drop i newIps = newIps ! i # drop (Suc i) newIps"
      using "1.prems" by (simp_all add: Cons_nth_drop_Suc)
    show ?thesis
    proof (cases "oldIps ! i = newIps ! i")
      case True
      with \<open>i < length oldIps\<close> "1.IH" "1.prems" d show ?thesis
        by (subst compare_from.simps) simp
    next
      case False
      with \<open>i < length oldIps\<close> d show ?thesis
        by (subst compare_from.simps) simp
    qed
  next
    case False
    with "1.prems" show ?thesis
      by (subst compare_from.simps) simp
  qed
qed

lemma sort_eq_iff_mset: "sort xs = sort ys \<longleftrightarrow> mset xs = mset ys"
proof
  assume "sort xs = sort ys"
  then have "mset (sort xs) = mset (sort ys)" by simp
  then show "mset xs = mset ys" by simp
next
  assume "mset xs = mset ys"
  then show "sort xs = sort ys"
    by (metis mset_sort sorted_sort properties_for_sort)
qed

lemma haveInterfacesChanged_mset:
  "haveInterfacesChanged old new \<longleftrightarrow> mset (extract_ips old []) \<noteq> mset (extract_ips new [])"
proof -
  let ?o = "sort (extract_ips old [])" and ?n = "sort (extract_ips new [])"
  have "haveInterfacesChanged old new \<longleftrightarrow> ?o \<noteq> ?n"
  proof (cases "length ?o = length ?n")
    case True
    then show ?thesis
      using compare_from_drop[of ?o ?n 0] by (simp add: haveInterfacesChanged_def Let_def)
  next
    case False
    then have "?o \<noteq> ?n" by (metis length_sort)
    with False show ?thesis by (simp add: haveInterfacesChanged_def Let_def)
  qed
  then show ?thesis by (simp add: sort_eq_iff_mset)
qed

lemma detect_ex_host_twin:
  "fst (detectNetworkInterfaces (Some ex_host_twin) this e) =
     [ex_eth0, \<lparr>name = ''wlan0'', ipAddress = ''192.168.1.5'', isWireless = True,
                isEthernet = False, isModem = False, isActive = True\<rparr>]"
  by (simp add: ex_defs ex_host_twin_def)

lemma detect_loop_mem:
  "x \<in> set (detect_loop l acc) \<Longrightarrow>
     x \<in> set acc \<or>
     (\<exists>ifa sa. ifa \<in> set l \<and> ifa_addr ifa = Some sa \<and> sa_family sa = AF_INET \<and>
        ifa_name ifa \<noteq> ''lo'' \<and> ifa_flags ifa AND IFF_LOOPBACK = 0 \<and>
        name x = ifa_name ifa \<and> ipAddress x = inet_ntop (sin_addr sa))"
proof (induction l arbitrary: acc)
  case Nil
  then show ?case by simp
next
  case (Cons ifa l)
  show ?case
  proof (cases "ifa_addr ifa")
    case None
    with Cons.prems have "x \<in> set (detect_loop l acc)" by simp
    from Cons.IH [OF this] show ?thesis by auto
  next
    case (Some sa)
    show ?thesis
    proof (cases "sa_family sa = AF_INET \<and> \<not> (ifa_name ifa = ''lo'' \<or> ifa_flags ifa AND IFF_LOOPBACK \<noteq> 0)")
      case False
      with Some Cons.prems have "x \<in> set (detect_loop l acc)"
        by (auto simp: Let_def split: if_splits)
      from Cons.IH [OF this] show ?thesis by auto
    next
      case True
      with Some Cons.prems obtain y where
        y: "x \<in> set (detect_loop l (acc @ [y]))" "name y = ifa_name ifa"
           "ipAddress y = inet_ntop (sin_addr sa)"
        by (auto simp: Let_def)
      from Cons.IH [OF y(1)] show ?thesis
      proof
        assume "x \<in> set (acc @ [y])"
        then consider "x \<in> set acc" | "x = y" by auto
        then show ?thesis
        proof cases
          case 1
          then show ?thesis by simp
        next
          case 2
          with y True Some have "ifa \<in> set (ifa # l) \<and> ifa_addr ifa = Some sa \<and> sa_family sa = AF_INET \<and>
            ifa_name ifa \<noteq> ''lo'' \<and> ifa_flags ifa AND IFF_LOOPBACK = 0 \<and>
            name x = ifa_name ifa \<and> ipAddress x = inet_ntop (sin_addr sa)"
            by simp
          then show ?thesis by blast
        qed
      next
        assume "\<exists>ifa sa. ifa \<in> set l \<and> ifa_addr ifa = Some sa \<and> sa_family sa = AF_INET \<and>
          ifa_name ifa \<noteq> ''lo'' \<and> ifa_flags ifa AND IFF_LOOPBACK = 0 \<and>
          name x = ifa_name ifa \<and> ipAddress x = inet_ntop (sin_addr sa)"
        then show ?thesis by auto
      qed
    qed
  qed
qed

lemma detected_mem:
  assumes "x \<in> set (fst (detectNetworkInterfaces g this e))"
  shows "name x \<noteq> ''lo'' \<and>
     (\<exists>ifaddr ifa sa. g = Some ifaddr \<and> ifa \<in> set ifaddr \<and> ifa_addr ifa = Some sa \<and>
        sa_family sa = AF_INET \<and> ifa_name ifa \<noteq> ''lo'' \<and> ifa_flags ifa AND IFF_LOOPBACK = 0 \<and>
        name x = ifa_name ifa \<and> ipAddress x = inet_ntop (sin_addr sa))"
proof (cases g)
  case None
  with assms show ?thesis by (simp add: detectNetworkInterfaces_def)
next
  case (Some ifaddr)
  with assms have "x \<in> set (detect_loop ifaddr [])"
    by (simp add: detectNetworkInterfaces_def)
  from detect_loop_mem [OF this] Some show ?thesis by auto
qed

lemma detect_loop_map_filter:
  "detect_loop l interfaces = interfaces @ List.map_filter enumerated_entry l"
proof (induction l arbitrary: interfaces)
  case Nil
  show ?case by (simp add: List.map_filter_simps)
next
  case (Cons ifa l)
  show ?case
  proof (cases "ifa_addr ifa")
    case None
    then show ?thesis
      by (simp add: Cons.IH List.map_filter_simps enumerated_entry_def)
  next
    case (Some sa)
    then show ?thesis
      by (simp add: Cons.IH List.map_filter_simps enumerated_entry_def has_prefix_of_def
          find_at_0_def Let_def)
  qed
qed

lemma run_callback_outcome:
  "run_callback cb interfaces w =
     (if calls_monitor cb then Blocks (host_effect cb interfaces w)
      else Returns (host_effect cb interfaces w))"
  by (induction cb arbitrary: w) simp_all

lemma run_callbacks_returning:
  "\<not> list_ex calls_monitor cbs \<Longrightarrow>
     run_callbacks cbs interfaces w = Returns (foldl (\<lambda>v cb. host_effect cb interfaces v) w cbs)"
  by (induction cbs arbitrary: w) (simp_all add: run_callback_outcome)

lemma run_callbacks_blocking:
  "list_ex calls_monitor cbs \<Longrightarrow> \<exists>w'. run_callbacks cbs interfaces w = Blocks w'"
  by (induction cbs arbitrary: w) (auto simp: run_callback_outcome)

lemma monitor_iteration_eq:
  assumes "detectNetworkInterfaces g this e = (cur, this, e)"
  shows "monitor_iteration g lastInterfaces this e =
     (if haveInterfacesChanged lastInterfaces cur
      then (case run_callbacks (m_callbacks this) cur (host e) of
              Returns w \<Rightarrow> Returns (cur, this\<lparr>m_interfaces := cur\<rparr>, e\<lparr>host := w\<rparr>)
            | Blocks w \<Rightarrow> Blocks (lastInterfaces, this\<lparr>m_interfaces := cur\<rparr>, e\<lparr>host := w\<rparr>))
      else Returns (cur, this, e))"
  by (simp add: monitor_iteration_def assms notifyNetworkChange_def split: outcome.splits)

lemma haveInterfacesChanged_ex:
  "haveInterfacesChanged [] [ex_eth0]" "\<not> haveInterfacesChanged [] [ex_eth0\<lparr>isActive := False\<rparr>]"
  by (simp_all add: haveInterfacesChanged_def ex_eth0_def compare_from.simps)

subsection \<open>The text of an address\<close>

lemma ten_cases:
  assumes "(d::nat) < 10"
  shows "d = 0 \<or> d = 1 \<or> d = 2 \<or> d = 3 \<or> d = 4 \<or> d = 5 \<or> d = 6 \<or> d = 7 \<or> d = 8 \<or> d = 9"
  using assms by arith

lemma digit_char_facts:
  assumes "d < 10"
  shows "is_digit (digit_char d)" and "digit_value (digit_char d) = d"
    and "digit_char d = CHR ''0'' \<longleftrightarrow> d = 0"
proof -
  have "is_digit (digit_char d) \<and> digit_value (digit_char d) = d
      \<and> (digit_char d = CHR ''0'' \<longleftrightarrow> d = 0)"
    using ten_cases[OF assms]
    by (elim disjE) (simp_all add: is_digit_def digit_value_def digit_char_def)
  then show "is_digit (digit_char d)" and "digit_value (digit_char d) = d"
    and "digit_char d = CHR ''0'' \<longleftrightarrow> d = 0"
    by simp_all
qed

lemma is_digit_not_sep: "is_digit c \<Longrightarrow> c \<noteq> CHR ''.'' \<and> c \<noteq> CHR 0x0A"
  by (auto simp: is_digit_def)

lemma dec_octet_is_octet_text: "is_octet_text (dec_octet w)"
proof -
  define n where "n = unat w"
  have n: "n < 256" using unsigned_less[of w, where 'a = nat] by (simp add: n_def)
  consider "n < 10" | "10 \<le> n" "n < 100" | "100 \<le> n" by linarith
  then show ?thesis
  proof cases
    case 1
    then have "dec_octet w = [digit_char n]"
      by (simp add: dec_octet_def n_def Let_def)
    with 1 show ?thesis
      by (auto simp: is_octet_text_def decimal_value_def digit_char_facts)
  next
    case 2
    then have a: "n div 10 < 10" "n mod 10 < 10" "n div 10 \<noteq> 0" by simp_all
    from 2 have "dec_octet w = [digit_char (n div 10), digit_char (n mod 10)]"
      by (simp add: dec_octet_def n_def Let_def)
    with a n show ?thesis
      by (simp add: is_octet_text_def decimal_value_def digit_char_facts)
  next
    case 3
    with n have a: "n div 100 < 10" "(n div 10) mod 10 < 10" "n mod 10 < 10" "n div 100 \<noteq> 0"
      by simp_all
    have "n div 100 = n div 10 div 10"
      by (simp add: div_mult2_eq)
    then have v: "10 * (10 * (n div 100) + n div 10 mod 10) + n mod 10 = n"
      by simp
    from 3 have "dec_octet w = [digit_char (n div 100), digit_char ((n div 10) mod 10), digit_char (n mod 10)]"
      by (simp add: dec_octet_def n_def Let_def)
    with a n v show ?thesis
      by (simp add: is_octet_text_def decimal_value_def digit_char_facts)
  qed
qed

lemma split_dots_no_dot: "CHR ''.'' \<notin> set s \<Longrightarrow> split_dots s = [s]"
  by (induction s) auto

lemma split_dots_field:
  "CHR ''.'' \<notin> set s \<Longrightarrow> split_dots (s @ CHR ''.'' # rest) = s # split_dots rest"
  by (induction s) auto

lemma octet_text_no_sep:
  assumes "is_octet_text s"
  shows "CHR ''.'' \<notin> set s" and "CHR 0x0A \<notin> set s"
  using assms is_digit_not_sep by (auto simp: is_octet_text_def list_all_iff)

lemma inet_ntop_dotted_decimal: "is_dotted_decimal (inet_ntop a)"
proof (cases a)
  case (In_addr p q r s)
  note o = dec_octet_is_octet_text
  note nd = octet_text_no_sep(1)[OF dec_octet_is_octet_text]
  have "split_dots (inet_ntop a) = [dec_octet p, dec_octet q, dec_octet r, dec_octet s]"
    by (simp add: In_addr split_dots_field nd split_dots_no_dot)
  then show ?thesis
    by (simp add: is_dotted_decimal_def o)
qed

lemma inet_ntop_no_newline: "CHR 0x0A \<notin> set (inet_ntop a)"
proof (cases a)
  case (In_addr p q r s)
  then show ?thesis
    using octet_text_no_sep(2)[OF dec_octet_is_octet_text] by simp
qed

lemma detected_relevant:
  assumes "detectNetworkInterfaces g this e = (ifs, this', e')"
  shows "filter relevant ifs = RelevantInterfaceSet ifs"
    and "\<forall>i \<in> set ifs. is_dotted_decimal (ipAddress i) \<and> CHR 0x0A \<notin> set (ipAddress i)"
proof -
  have m: "\<And>x. x \<in> set ifs \<Longrightarrow> name x \<noteq> ''lo'' \<and> (\<exists>a. ipAddress x = inet_ntop a)"
  proof -
    fix x assume "x \<in> set ifs"
    then have "x \<in> set (fst (detectNetworkInterfaces g this e))" using assms by simp
    from detected_mem [OF this] show "name x \<noteq> ''lo'' \<and> (\<exists>a. ipAddress x = inet_ntop a)"
      by auto
  qed
  show "filter relevant ifs = RelevantInterfaceSet ifs"
    unfolding RelevantInterfaceSet_def
    by (rule filter_cong) (auto simp: relevant_def dest: m)
  show "\<forall>i \<in> set ifs. is_dotted_decimal (ipAddress i) \<and> CHR 0x0A \<notin> set (ipAddress i)"
    using m inet_ntop_dotted_decimal inet_ntop_no_newline by metis
qed

subsection \<open>start and stop\<close>

text \<open>
  C9. \<^verbatim>\<open>start\<close> on a running monitor changes nothing and launches no thread; two
  calls of \<^verbatim>\<open>start\<close> in a row on a stopped monitor leave it running with exactly
  one more poll loop launched; \<^verbatim>\<open>stop\<close> on a stopped monitor changes nothing;
  \<^verbatim>\<open>stop\<close> does nothing but clear \<^verbatim>\<open>m_running\<close> (it joins no thread: the count
  of loops and everything else is as before), and a second \<^verbatim>\<open>stop\<close> changes
  nothing.
\<close>

theorem start_stop_idempotent:
  "(m_running this \<longrightarrow> start this e = (this, e)) \<and>
   (case start this e of (this1, e1) \<Rightarrow> m_running this1 \<and> start this1 e1 = (this1, e1)) \<and>
   (\<not> m_running this \<longrightarrow>
      (case start this e of (this1, e1) \<Rightarrow>
         poll_loops e1 = Suc (poll_loops e) \<and> poll_loops (snd (start this1 e1)) = Suc (poll_loops e))) \<and>
   (\<not> m_running this \<longrightarrow> stop this e = (this, e)) \<and>
   stop this e = (this\<lparr>m_running := False\<rparr>, e) \<and>
   (case stop this e of (this1, e1) \<Rightarrow> stop this1 e1 = (this1, e1))"
  by (simp add: start_def stop_def)

theorem start_stop_idempotent_witness:
  "start (ex_running :: unit NetworkMonitor) (ex_env ()) = (ex_running, ex_env ()) \<and>
   poll_loops (snd (start (fst (start (NetworkMonitor_new :: unit NetworkMonitor) (ex_env ())))
                          (snd (start (NetworkMonitor_new :: unit NetworkMonitor) (ex_env ()))))) = 1 \<and>
   stop (NetworkMonitor_new :: unit NetworkMonitor) (ex_env ()) = (NetworkMonitor_new, ex_env ())"
  using start_stop_idempotent [of "ex_running :: unit NetworkMonitor" "ex_env ()"]
    start_stop_idempotent [of "NetworkMonitor_new :: unit NetworkMonitor" "ex_env ()"]
  by (simp add: ex_running_def NetworkMonitor_new_def ex_env_def split: prod.splits)

subsection \<open>detectNetworkInterfaces\<close>

text \<open>
  C6. \<^verbatim>\<open>detectNetworkInterfaces\<close> leaves the monitor and its surroundings as
  they were, whatever \<^verbatim>\<open>getifaddrs\<close> answers: the stored snapshot and the list
  of callbacks are unchanged, and the host state is unchanged (no callback has
  run). The value returned is the enumeration of this very call: nothing when
  \<^verbatim>\<open>getifaddrs\<close> fails, and otherwise one entry, in order, for each IPv4 address
  of each interface that is not the loopback interface, with the interface's name,
  the text of the address, the activity read off the flags and the classes read off
  the name.
\<close>

theorem detectNetworkInterfaces_frame:
  "snd (detectNetworkInterfaces g this e) = (this, e) \<and>
   m_interfaces (fst (snd (detectNetworkInterfaces g this e))) = m_interfaces this \<and>
   m_callbacks (fst (snd (detectNetworkInterfaces g this e))) = m_callbacks this \<and>
   host (snd (snd (detectNetworkInterfaces g this e))) = host e \<and>
   fst (detectNetworkInterfaces None this e) = [] \<and>
   fst (detectNetworkInterfaces (Some ifaddr) this e) = List.map_filter enumerated_entry ifaddr"
  by (simp add: detectNetworkInterfaces_def detect_loop_map_filter split: option.splits)

theorem detectNetworkInterfaces_frame_witness:
  "detectNetworkInterfaces (Some ex_host)
      (ex_running\<lparr>m_interfaces := [ex_wlan0]\<rparr> :: unit NetworkMonitor) (ex_env ()) =
     ([ex_eth0], ex_running\<lparr>m_interfaces := [ex_wlan0]\<rparr>, ex_env ())"
proof -
  have m: "List.map_filter enumerated_entry ex_host = [ex_eth0]"
    by (simp add: List.map_filter_simps enumerated_entry_def has_prefix_of_def ex_defs)
  from detectNetworkInterfaces_frame [where g = "Some ex_host" and ifaddr = ex_host
      and this = "ex_running\<lparr>m_interfaces := [ex_wlan0]\<rparr> :: unit NetworkMonitor" and e = "ex_env ()"] m
  show ?thesis by (simp add: prod_eq_iff)
qed

text \<open>
  The address itself is not tested at detection. An interface that is neither
  named \<^verbatim>\<open>lo\<close> nor flagged \<^verbatim>\<open>IFF_LOOPBACK\<close> and holds \<^verbatim>\<open>127.0.0.1\<close> (here a
  dummy interface, up and running) is listed with that address.
\<close>

theorem detectNetworkInterfaces_addr_counterexample:
  "fst (detectNetworkInterfaces (Some [ex_inet ''dummy0'' 0xc3 (In_addr 127 0 0 1)])
         (NetworkMonitor_new :: unit NetworkMonitor) (ex_env ())) =
     [\<lparr>name = ''dummy0'', ipAddress = ''127.0.0.1'', isWireless = False,
       isEthernet = False, isModem = False, isActive = True\<rparr>]"
  by (simp add: ex_defs)

text \<open>
  C2, as the code has it. No entry of a returned snapshot is named \<^verbatim>\<open>lo\<close>, and
  every entry comes from an \<^verbatim>\<open>AF_INET\<close> node of the enumeration that is not
  named \<^verbatim>\<open>lo\<close> and does not carry \<^verbatim>\<open>IFF_LOOPBACK\<close>, with that node's name and
  the text of that node's address. The address \<^verbatim>\<open>127.0.0.1\<close> is not excluded at
  detection; it is the consumers (\<^verbatim>\<open>saveIpListToFile\<close>,
  \<^verbatim>\<open>haveInterfacesChanged\<close>) that drop it.
\<close>

theorem detectNetworkInterfaces_no_loopback:
  assumes "x \<in> set (fst (detectNetworkInterfaces g this e))"
  shows "name x \<noteq> ''lo'' \<and>
     (\<exists>ifaddr ifa sa. g = Some ifaddr \<and> ifa \<in> set ifaddr \<and> ifa_addr ifa = Some sa \<and>
        sa_family sa = AF_INET \<and> ifa_name ifa \<noteq> ''lo'' \<and> ifa_flags ifa AND IFF_LOOPBACK = 0 \<and>
        name x = ifa_name ifa \<and> ipAddress x = inet_ntop (sin_addr sa))"
  using assms by (rule detected_mem)

theorem detectNetworkInterfaces_no_loopback_witness:
  "ex_eth0 \<in> set (fst (detectNetworkInterfaces (Some ex_host) (NetworkMonitor_new :: unit NetworkMonitor) (ex_env ()))) \<and>
   name ex_eth0 \<noteq> ''lo'' \<and>
   (\<exists>ifa sa. ifa \<in> set ex_host \<and> ifa_addr ifa = Some sa \<and> sa_family sa = AF_INET \<and>
        ifa_name ifa \<noteq> ''lo'' \<and> ifa_flags ifa AND IFF_LOOPBACK = 0 \<and>
        name ex_eth0 = ifa_name ifa \<and> ipAddress ex_eth0 = inet_ntop (sin_addr sa))"
proof -
  have h: "ex_eth0 \<in> set (fst (detectNetworkInterfaces (Some ex_host)
             (NetworkMonitor_new :: unit NetworkMonitor) (ex_env ())))"
    by (simp add: detect_ex_host)
  from detectNetworkInterfaces_no_loopback [OF h] h show ?thesis by simp
qed

subsection \<open>saveIpListToFile\<close>

text \<open>
  C10. Whatever happens to the file, \<^verbatim>\<open>saveIpListToFile\<close> leaves the fresh
  detection result in \<^verbatim>\<open>m_interfaces\<close>, where \<^verbatim>\<open>getNetworkInterfaces\<close> reads
  it; when the file cannot be opened the call returns \<^verbatim>\<open>false\<close> with the
  snapshot already replaced and nothing else changed.
\<close>

theorem saveIpListToFile_stores_first:
  "(case saveIpListToFile g filePath this e of (ok, this', e') \<Rightarrow>
      this' = this\<lparr>m_interfaces := fst (detectNetworkInterfaces g this e)\<rparr> \<and>
      fst (getNetworkInterfaces this' e') = fst (detectNetworkInterfaces g this e)) \<and>
   (\<not> can_open e filePath \<longrightarrow>
      saveIpListToFile g filePath this e =
        (False, this\<lparr>m_interfaces := fst (detectNetworkInterfaces g this e)\<rparr>, e))"
  by (simp add: saveIpListToFile_def detectNetworkInterfaces_def getNetworkInterfaces_def Let_def
      split: option.splits prod.splits)

theorem saveIpListToFile_stores_first_witness:
  "\<not> can_open (ex_env ()) ''/proc/ip_bank.txt'' \<and>
   saveIpListToFile (Some ex_host) ''/proc/ip_bank.txt'' NetworkMonitor_new (ex_env ()) =
     (False, NetworkMonitor_new\<lparr>m_interfaces := [ex_eth0]\<rparr>, ex_env ())"
proof -
  have h: "\<not> can_open (ex_env ()) ''/proc/ip_bank.txt''"
    by (simp add: ex_env_def)
  from saveIpListToFile_stores_first [where g = "Some ex_host" and filePath = "''/proc/ip_bank.txt''"
      and this = NetworkMonitor_new and e = "ex_env ()"] h
  show ?thesis by (simp add: detect_ex_host)
qed

text \<open>
  C3. The call returns \<^verbatim>\<open>false\<close> exactly when the file cannot be opened for
  writing, and then leaves the files alone. When the file can be opened and every
  detected entry is inactive, loopback or without an address, the call returns
  \<^verbatim>\<open>true\<close> and the file holds no line at all.
\<close>

theorem saveIpListToFile_result:
  "(fst (saveIpListToFile g filePath this e) = False \<longleftrightarrow> \<not> can_open e filePath) \<and>
   (\<not> can_open e filePath \<longrightarrow> snd (snd (saveIpListToFile g filePath this e)) = e) \<and>
   (can_open e filePath \<and>
    (\<forall>i \<in> set (fst (detectNetworkInterfaces g this e)).
        \<not> isActive i \<or> ipAddress i = ''127.0.0.1'' \<or> name i = ''lo'' \<or> ipAddress i = []) \<longrightarrow>
      fst (saveIpListToFile g filePath this e) = True \<and>
      files (snd (snd (saveIpListToFile g filePath this e))) filePath = Some [])"
proof -
  obtain ifs where d: "detectNetworkInterfaces g this e = (ifs, this, e)"
    using detectNetworkInterfaces_triple by blast
  have r: "(\<forall>i \<in> set ifs. \<not> isActive i \<or> ipAddress i = ''127.0.0.1'' \<or> name i = ''lo''
              \<or> ipAddress i = []) \<Longrightarrow> extract_ips ifs [] = []"
    by (auto simp: extract_ips_filter relevant_def filter_empty_conv)
  have a: "fst (saveIpListToFile g filePath this e) = can_open e filePath"
    by (simp add: saveIpListToFile_def d write_loop_eq Let_def)
  have b: "\<not> can_open e filePath \<Longrightarrow> snd (snd (saveIpListToFile g filePath this e)) = e"
    by (simp add: saveIpListToFile_def d)
  have c: "can_open e filePath \<Longrightarrow> extract_ips ifs [] = [] \<Longrightarrow>
      files (snd (snd (saveIpListToFile g filePath this e))) filePath = Some []"
    by (simp add: saveIpListToFile_def d write_loop_eq Let_def)
  from a b c r show ?thesis by (auto simp: d)
qed

theorem saveIpListToFile_result_witness:
  "fst (saveIpListToFile (Some ex_host_unplugged) ''/tmp/ip_bank.txt''
          (NetworkMonitor_new :: unit NetworkMonitor) (ex_env ())) = True \<and>
   files (snd (snd (saveIpListToFile (Some ex_host_unplugged) ''/tmp/ip_bank.txt''
          (NetworkMonitor_new :: unit NetworkMonitor) (ex_env ())))) ''/tmp/ip_bank.txt'' = Some [] \<and>
   fst (saveIpListToFile (Some ex_host_unplugged) ''/proc/ip_bank.txt''
          (NetworkMonitor_new :: unit NetworkMonitor) (ex_env ())) = False"
proof -
  have o: "can_open (ex_env ()) ''/tmp/ip_bank.txt''" "\<not> can_open (ex_env ()) ''/proc/ip_bank.txt''"
    by (simp_all add: ex_env_def)
  have q: "\<forall>i \<in> set (fst (detectNetworkInterfaces (Some ex_host_unplugged)
              (NetworkMonitor_new :: unit NetworkMonitor) (ex_env ()))).
            \<not> isActive i \<or> ipAddress i = ''127.0.0.1'' \<or> name i = ''lo'' \<or> ipAddress i = []"
    by (simp add: detect_ex_host_unplugged)
  from saveIpListToFile_result [where g = "Some ex_host_unplugged" and filePath = "''/tmp/ip_bank.txt''"
      and this = "NetworkMonitor_new :: unit NetworkMonitor" and e = "ex_env ()"]
    saveIpListToFile_result [where g = "Some ex_host_unplugged" and filePath = "''/proc/ip_bank.txt''"
      and this = "NetworkMonitor_new :: unit NetworkMonitor" and e = "ex_env ()"] o q
  show ?thesis by blast
qed

text \<open>
  The return value says nothing about the writes. On a full file system the file is
  created, no byte reaches it, and the call still returns \<^verbatim>\<open>true\<close>: the detected
  snapshot has a relevant entry and the file is empty.
\<close>

theorem saveIpListToFile_write_failure_counterexample:
  "fst (saveIpListToFile (Some ex_host) ''/tmp/ip_bank.txt''
          (NetworkMonitor_new :: unit NetworkMonitor) (ex_env_full ())) = True \<and>
   RelevantInterfaceSet (fst (detectNetworkInterfaces (Some ex_host)
          (NetworkMonitor_new :: unit NetworkMonitor) (ex_env_full ()))) = [ex_eth0] \<and>
   files (snd (snd (saveIpListToFile (Some ex_host) ''/tmp/ip_bank.txt''
          (NetworkMonitor_new :: unit NetworkMonitor) (ex_env_full ())))) ''/tmp/ip_bank.txt'' = Some []"
proof -
  have "fst (saveIpListToFile (Some ex_host) ''/tmp/ip_bank.txt''
          (NetworkMonitor_new :: unit NetworkMonitor) (ex_env_full ())) = True"
    and "files (snd (snd (saveIpListToFile (Some ex_host) ''/tmp/ip_bank.txt''
          (NetworkMonitor_new :: unit NetworkMonitor) (ex_env_full ())))) ''/tmp/ip_bank.txt'' = Some []"
    by (simp_all add: saveIpListToFile_def ex_defs)
  moreover have "RelevantInterfaceSet (fst (detectNetworkInterfaces (Some ex_host)
          (NetworkMonitor_new :: unit NetworkMonitor) (ex_env_full ()))) = [ex_eth0]"
    by (simp add: detect_ex_host RelevantInterfaceSet_def ex_eth0_def)
  ultimately show ?thesis by simp
qed

text \<open>
  C7, as the code has it. When the call returns \<^verbatim>\<open>true\<close> and the detected snapshot
  has a relevant entry, the file holds the part that reached it of this text: for
  each relevant entry in the order of the snapshot, the entry's address followed by
  a newline, and nothing else. When no write fails, so that all of the text
  reaches the file, the file is exactly that text; each address in it is a
  dotted-decimal IPv4 address and contains no newline, so every line is one address
  and no line is blank. On the sample host the file is the one line
  \<^verbatim>\<open>192.168.1.5\<close>.
\<close>

theorem saveIpListToFile_content:
  assumes "fst (saveIpListToFile g filePath this e) = True"
    and "RelevantInterfaceSet (fst (detectNetworkInterfaces g this e)) \<noteq> []"
  shows "files (snd (snd (saveIpListToFile g filePath this e))) filePath =
       Some (take (write_limit e filePath)
               (concat (map (\<lambda>i. ipAddress i @ ''\<newline>'')
                  (RelevantInterfaceSet (fst (detectNetworkInterfaces g this e)))))) \<and>
     (length (concat (map (\<lambda>i. ipAddress i @ ''\<newline>'')
                (RelevantInterfaceSet (fst (detectNetworkInterfaces g this e)))))
        \<le> write_limit e filePath \<longrightarrow>
      files (snd (snd (saveIpListToFile g filePath this e))) filePath =
        Some (concat (map (\<lambda>i. ipAddress i @ ''\<newline>'')
                (RelevantInterfaceSet (fst (detectNetworkInterfaces g this e)))))) \<and>
     (\<forall>i \<in> set (RelevantInterfaceSet (fst (detectNetworkInterfaces g this e))).
        is_dotted_decimal (ipAddress i) \<and> CHR 0x0A \<notin> set (ipAddress i))"
proof -
  obtain ifs where d: "detectNetworkInterfaces g this e = (ifs, this, e)"
    using detectNetworkInterfaces_triple by blast
  note r = detected_relevant [OF d]
  have x: "extract_ips ifs [] = map ipAddress (RelevantInterfaceSet ifs)"
    by (simp add: extract_ips_filter r(1))
  from assms(1) have o: "can_open e filePath"
    by (simp add: saveIpListToFile_def d Let_def split: if_splits)
  have "files (snd (snd (saveIpListToFile g filePath this e))) filePath =
      Some (take (write_limit e filePath)
              (concat (map (\<lambda>ip. ip @ ''\<newline>'') (extract_ips ifs []))))"
    using o by (simp add: saveIpListToFile_def d write_loop_eq Let_def)
  then have f: "files (snd (snd (saveIpListToFile g filePath this e))) filePath =
      Some (take (write_limit e filePath)
              (concat (map (\<lambda>i. ipAddress i @ ''\<newline>'') (RelevantInterfaceSet ifs))))"
    by (simp add: x comp_def)
  have "\<forall>i \<in> set (RelevantInterfaceSet ifs).
        is_dotted_decimal (ipAddress i) \<and> CHR 0x0A \<notin> set (ipAddress i)"
    using r(2) by (simp add: RelevantInterfaceSet_def)
  with f show ?thesis by (simp add: d)
qed

theorem saveIpListToFile_content_witness:
  "fst (saveIpListToFile (Some ex_host) ''/tmp/ip_bank.txt''
          (NetworkMonitor_new :: unit NetworkMonitor) (ex_env ())) = True \<and>
   RelevantInterfaceSet (fst (detectNetworkInterfaces (Some ex_host)
          (NetworkMonitor_new :: unit NetworkMonitor) (ex_env ()))) = [ex_eth0] \<and>
   files (snd (snd (saveIpListToFile (Some ex_host) ''/tmp/ip_bank.txt''
          (NetworkMonitor_new :: unit NetworkMonitor) (ex_env ())))) ''/tmp/ip_bank.txt'' =
     Some ''192.168.1.5\<newline>''"
proof -
  have h1: "fst (saveIpListToFile (Some ex_host) ''/tmp/ip_bank.txt''
          (NetworkMonitor_new :: unit NetworkMonitor) (ex_env ())) = True"
    by (simp add: saveIpListToFile_def ex_defs)
  have h2: "RelevantInterfaceSet (fst (detectNetworkInterfaces (Some ex_host)
          (NetworkMonitor_new :: unit NetworkMonitor) (ex_env ()))) = [ex_eth0]"
    by (simp add: detect_ex_host RelevantInterfaceSet_def ex_eth0_def)
  from h2 have h3: "RelevantInterfaceSet (fst (detectNetworkInterfaces (Some ex_host)
          (NetworkMonitor_new :: unit NetworkMonitor) (ex_env ()))) \<noteq> []"
    by simp
  have h4: "write_limit (ex_env ()) ''/tmp/ip_bank.txt'' = 4096"
    by (simp add: ex_env_def)
  from saveIpListToFile_content [OF h1 h3] h1 h2 h4 show ?thesis
    by (simp add: ex_eth0_def)
qed

subsection \<open>haveInterfacesChanged\<close>

text \<open>
  The same set of addresses can be reported as changed. On a host where
  \<^verbatim>\<open>eth0\<close> and \<^verbatim>\<open>wlan0\<close> carry the same address, the relevant addresses are that
  address twice; when \<^verbatim>\<open>wlan0\<close> goes away they are that address once. The sizes
  differ, so a change is reported, and the set of addresses is the same.
\<close>

theorem haveInterfacesChanged_set_counterexample:
  "haveInterfacesChanged
     (fst (detectNetworkInterfaces (Some ex_host_twin) (NetworkMonitor_new :: unit NetworkMonitor) (ex_env ())))
     (fst (detectNetworkInterfaces (Some ex_host) (NetworkMonitor_new :: unit NetworkMonitor) (ex_env ()))) \<and>
   set (extract_ips (fst (detectNetworkInterfaces (Some ex_host_twin)
          (NetworkMonitor_new :: unit NetworkMonitor) (ex_env ()))) []) =
   set (extract_ips (fst (detectNetworkInterfaces (Some ex_host)
          (NetworkMonitor_new :: unit NetworkMonitor) (ex_env ()))) [])"
  by (simp add: detect_ex_host detect_ex_host_twin haveInterfacesChanged_def ex_eth0_def)

text \<open>
  C1, as the code has it. The two collections of relevant addresses are sorted and
  compared as sequences, so they are compared as multisets: a change is reported
  exactly when some address occurs a different number of times in the two. Every
  difference in membership is therefore reported, and the order of the interfaces
  never matters. When no address occurs twice on either side, a change is reported
  exactly when the sets differ. The five examples of the claim hold, the first for
  \<open>B \<noteq> C\<close>.
\<close>

theorem haveInterfacesChanged_multiset:
  "(haveInterfacesChanged old new \<longleftrightarrow> mset (extract_ips old []) \<noteq> mset (extract_ips new [])) \<and>
   (set (extract_ips old []) \<noteq> set (extract_ips new []) \<longrightarrow> haveInterfacesChanged old new) \<and>
   (distinct (extract_ips old []) \<and> distinct (extract_ips new []) \<longrightarrow>
      (haveInterfacesChanged old new \<longleftrightarrow> set (extract_ips old []) \<noteq> set (extract_ips new []))) \<and>
   (mset new = mset old \<longrightarrow> \<not> haveInterfacesChanged old new) \<and>
   (extract_ips old [] = [A, B] \<and> extract_ips new [] = [A, C] \<and> B \<noteq> C \<longrightarrow>
      haveInterfacesChanged old new) \<and>
   (extract_ips old [] = [A, B] \<and> extract_ips new [] = [A, B, C] \<longrightarrow> haveInterfacesChanged old new) \<and>
   (extract_ips old [] = [A, B] \<and> extract_ips new [] = [A] \<longrightarrow> haveInterfacesChanged old new) \<and>
   (extract_ips old [] = [A, B] \<and> extract_ips new [] = [A, B] \<longrightarrow> \<not> haveInterfacesChanged old new) \<and>
   (extract_ips old [] = [A, B] \<and> extract_ips new [] = [B, A] \<longrightarrow> \<not> haveInterfacesChanged old new)"
proof -
  note m = haveInterfacesChanged_mset [of old new]
  have s: "set (extract_ips old []) \<noteq> set (extract_ips new []) \<Longrightarrow> haveInterfacesChanged old new"
    using m by (metis set_mset_mset)
  have d: "distinct (extract_ips old []) \<Longrightarrow> distinct (extract_ips new []) \<Longrightarrow>
      haveInterfacesChanged old new \<longleftrightarrow> set (extract_ips old []) \<noteq> set (extract_ips new [])"
    using m by (metis set_eq_iff_mset_eq_distinct)
  have p: "mset new = mset old \<Longrightarrow> \<not> haveInterfacesChanged old new"
    using m mset_extract_ips_perm [of new old] by simp
  have e1: "extract_ips old [] = [A, B] \<Longrightarrow> extract_ips new [] = [A, C] \<Longrightarrow> B \<noteq> C \<Longrightarrow>
      haveInterfacesChanged old new"
    using m by simp
  have e2: "extract_ips old [] = [A, B] \<Longrightarrow> extract_ips new [] = [A, B, C] \<Longrightarrow>
      haveInterfacesChanged old new"
    using m by simp
  have e3: "extract_ips old [] = [A, B] \<Longrightarrow> extract_ips new [] = [A] \<Longrightarrow>
      haveInterfacesChanged old new"
    using m by simp
  have e4: "extract_ips old [] = [A, B] \<Longrightarrow> extract_ips new [] = [A, B] \<Longrightarrow>
      \<not> haveInterfacesChanged old new"
    using m by simp
  have e5: "extract_ips old [] = [A, B] \<Longrightarrow> extract_ips new [] = [B, A] \<Longrightarrow>
      \<not> haveInterfacesChanged old new"
    using m by (simp add: add.commute)
  from m s d p e1 e2 e3 e4 e5 show ?thesis by blast
qed

theorem haveInterfacesChanged_multiset_witness:
  "haveInterfacesChanged [ex_eth0] [ex_eth0, ex_wlan0] \<and>
   \<not> haveInterfacesChanged [ex_eth0, ex_wlan0] [ex_wlan0, ex_eth0]"
proof -
  have h1: "set (extract_ips [ex_eth0] []) \<noteq> set (extract_ips [ex_eth0, ex_wlan0] [])"
    by (simp add: ex_eth0_def ex_wlan0_def)
  have h2: "mset [ex_wlan0, ex_eth0] = mset [ex_eth0, ex_wlan0]"
    by simp
  from haveInterfacesChanged_multiset [where old = "[ex_eth0]" and new = "[ex_eth0, ex_wlan0]"]
    haveInterfacesChanged_multiset [where old = "[ex_eth0, ex_wlan0]" and new = "[ex_wlan0, ex_eth0]"]
    h1 h2
  show ?thesis by blast
qed

subsection \<open>monitorThread\<close>

text \<open>
  When no registered callback calls a method of the monitor that takes the mutex, a
  pass that detects a change returns: \<^verbatim>\<open>m_interfaces\<close> is the fresh detection
  result, and the callbacks have run one after the other in the order of
  \<^verbatim>\<open>m_callbacks\<close>, each on the host state its predecessor left and each with that
  same snapshot.
\<close>

lemma monitor_iteration_fan_out_returning:
  assumes "haveInterfacesChanged lastInterfaces (fst (detectNetworkInterfaces g this e))"
    and "\<not> list_ex calls_monitor (m_callbacks this)"
  shows "monitor_iteration g lastInterfaces this e =
     Returns (fst (detectNetworkInterfaces g this e),
        this\<lparr>m_interfaces := fst (detectNetworkInterfaces g this e)\<rparr>,
        e\<lparr>host := foldl (\<lambda>w callback. host_effect callback (fst (detectNetworkInterfaces g this e)) w)
                     (host e) (m_callbacks this)\<rparr>)"
proof -
  obtain cur where d: "detectNetworkInterfaces g this e = (cur, this, e)"
    using detectNetworkInterfaces_triple by blast
  with assms(1) have "haveInterfacesChanged lastInterfaces cur" by simp
  then show ?thesis
    by (simp add: monitor_iteration_eq [OF d] d run_callbacks_returning [OF assms(2)])
qed

lemma ex_relay_monitor_eq:
  "ex_relay_monitor = \<lparr>m_running = True, m_interfaces = [],
     m_callbacks = [onNetworkChange ''/tmp/ip_bank.txt'', ex_second]\<rparr>"
  by (simp add: ex_relay_monitor_def registerCallback_def ex_running_def)

text \<open>
  C4. The claim is that a detected change is stored and then reaches every
  registered callback, one completing before the next begins. The code stores
  first and walks \<^verbatim>\<open>m_callbacks\<close> in the order of registration, but it calls the
  callbacks with \<^verbatim>\<open>m_mutex\<close> held, and the callback this repository registers,
  \<^verbatim>\<open>onNetworkChange\<close>, calls \<^verbatim>\<open>saveIpListToFile\<close>, which asks for that mutex. On
  the monitor as \<^verbatim>\<open>SrtlaRelay\<close> sets it up, with a second callback registered
  after it, the first pass that detects a change stores the snapshot and enters
  \<^verbatim>\<open>onNetworkChange\<close>; that callback logs its first line and does not return, the
  second callback is not called, and \<^verbatim>\<open>lastInterfaces\<close> is not assigned.
\<close>

theorem onNetworkChange_never_returns:
  "m_callbacks ex_relay_monitor = [onNetworkChange ''/tmp/ip_bank.txt'', ex_second] \<and>
   monitor_iteration (Some ex_host) [] ex_relay_monitor (ex_env ex_relay) =
     Blocks ([], ex_relay_monitor\<lparr>m_interfaces := [ex_eth0]\<rparr>,
             (ex_env ex_relay)\<lparr>host := ex_relay\<lparr>blog :=
                [''Network change detected - updating IP bank file'']\<rparr>\<rparr>)"
proof -
  obtain cur where d: "detectNetworkInterfaces (Some ex_host) ex_relay_monitor (ex_env ex_relay)
      = (cur, ex_relay_monitor, ex_env ex_relay)"
    using detectNetworkInterfaces_triple by blast
  with detect_ex_host [of ex_relay_monitor "ex_env ex_relay"] have c: "cur = [ex_eth0]"
    by simp
  have r: "run_callbacks (m_callbacks ex_relay_monitor) [ex_eth0] (host (ex_env ex_relay)) =
      Blocks (ex_relay\<lparr>blog := [''Network change detected - updating IP bank file'']\<rparr>)"
    by (simp add: ex_relay_monitor_eq onNetworkChange_def ex_env_def ex_relay_def)
  show ?thesis
    by (simp add: monitor_iteration_eq [OF d] c haveInterfacesChanged_ex r)
      (simp add: ex_relay_monitor_eq)
qed

text \<open>
  A pass that signals no change does not store what it detected. On a host whose
  only addressed interface is up but not running, the first pass of the loop
  detects one entry, finds no relevant address before or after, and leaves the
  stored snapshot empty.
\<close>

theorem monitor_iteration_stale_counterexample:
  "monitor_iteration (Some ex_host_unplugged) [] (ex_running :: unit NetworkMonitor) (ex_env ()) =
     Returns ([ex_eth0\<lparr>isActive := False\<rparr>], ex_running, ex_env ()) \<and>
   fst (getNetworkInterfaces (ex_running :: unit NetworkMonitor) (ex_env ())) = []"
proof -
  obtain cur where d: "detectNetworkInterfaces (Some ex_host_unplugged) (ex_running :: unit NetworkMonitor) (ex_env ())
      = (cur, ex_running, ex_env ())"
    using detectNetworkInterfaces_triple by blast
  with detect_ex_host_unplugged [of "ex_running :: unit NetworkMonitor" "ex_env ()"]
  have c: "cur = [ex_eth0\<lparr>isActive := False\<rparr>]" by simp
  have "monitor_iteration (Some ex_host_unplugged) [] (ex_running :: unit NetworkMonitor) (ex_env ())
      = Returns ([ex_eth0\<lparr>isActive := False\<rparr>], ex_running, ex_env ())"
    by (simp add: monitor_iteration_eq [OF d] c haveInterfacesChanged_ex)
  then show ?thesis
    by (simp add: getNetworkInterfaces_def ex_running_def)
qed

text \<open>
  C5, as the code has it. The local \<^verbatim>\<open>lastInterfaces\<close> is replaced by the fresh
  detection result in every pass that returns. The stored snapshot is replaced only
  in a pass that signals a change, and then \<^verbatim>\<open>getNetworkInterfaces\<close> reads the
  fresh result; in a pass that signals no change the monitor and its surroundings
  are left exactly as they were, and the pass returns. A pass that does not return
  has signalled a change and has stored the fresh result before it stopped.
\<close>

theorem monitor_iteration_snapshot:
  "(case monitor_iteration g lastInterfaces this e of
      Returns (lastInterfaces', this', e') \<Rightarrow>
        lastInterfaces' = fst (detectNetworkInterfaces g this e) \<and>
        (haveInterfacesChanged lastInterfaces (fst (detectNetworkInterfaces g this e)) \<longrightarrow>
           fst (getNetworkInterfaces this' e') = fst (detectNetworkInterfaces g this e)) \<and>
        (\<not> haveInterfacesChanged lastInterfaces (fst (detectNetworkInterfaces g this e)) \<longrightarrow>
           this' = this \<and> e' = e)
    | Blocks (lastInterfaces', this', e') \<Rightarrow>
        haveInterfacesChanged lastInterfaces (fst (detectNetworkInterfaces g this e)) \<and>
        m_interfaces this' = fst (detectNetworkInterfaces g this e)) \<and>
   (\<not> haveInterfacesChanged lastInterfaces (fst (detectNetworkInterfaces g this e)) \<longrightarrow>
      monitor_iteration g lastInterfaces this e =
        Returns (fst (detectNetworkInterfaces g this e), this, e))"
proof -
  obtain cur where d: "detectNetworkInterfaces g this e = (cur, this, e)"
    using detectNetworkInterfaces_triple by blast
  show ?thesis
    by (simp add: monitor_iteration_eq [OF d] d getNetworkInterfaces_def split: outcome.splits)
qed

theorem monitor_iteration_snapshot_witness:
  "(case monitor_iteration (Some ex_host) [] (ex_running :: unit NetworkMonitor) (ex_env ()) of
      Returns (lastInterfaces', this', e') \<Rightarrow>
        lastInterfaces' = [ex_eth0] \<and> fst (getNetworkInterfaces this' e') = [ex_eth0]
    | Blocks (lastInterfaces', this', e') \<Rightarrow> m_interfaces this' = [ex_eth0]) \<and>
   monitor_iteration (Some ex_host_unplugged) [] (ex_running :: unit NetworkMonitor) (ex_env ()) =
     Returns ([ex_eth0\<lparr>isActive := False\<rparr>], ex_running, ex_env ())"
proof -
  have h1: "haveInterfacesChanged [] (fst (detectNetworkInterfaces (Some ex_host) (ex_running :: unit NetworkMonitor) (ex_env ())))"
    by (simp add: detect_ex_host haveInterfacesChanged_ex)
  have h2: "\<not> haveInterfacesChanged [] (fst (detectNetworkInterfaces (Some ex_host_unplugged) (ex_running :: unit NetworkMonitor) (ex_env ())))"
    by (simp add: detect_ex_host_unplugged haveInterfacesChanged_ex)
  from monitor_iteration_snapshot [where g = "Some ex_host" and lastInterfaces = "[]"
      and this = "ex_running :: unit NetworkMonitor" and e = "ex_env ()"]
    monitor_iteration_snapshot [where g = "Some ex_host_unplugged" and lastInterfaces = "[]"
      and this = "ex_running :: unit NetworkMonitor" and e = "ex_env ()"] h1 h2
  show ?thesis
    by (simp add: detect_ex_host detect_ex_host_unplugged split: outcome.splits prod.splits)
qed

text \<open>
  C8. When \<^verbatim>\<open>getifaddrs\<close> fails, \<^verbatim>\<open>detectNetworkInterfaces\<close> returns the empty
  sequence. The pass of the loop is then the pass for an enumeration that succeeds
  with no entry, and so is the run of the loop from there; the pass decides on a
  change as it does for any snapshot without a relevant entry. A pass that returns
  leaves \<^verbatim>\<open>m_running\<close> as it was, so a running loop goes on to its next pass. The
  pass returns unless there was a relevant address before and a registered callback
  calls into the monitor, which stops the pass for an empty enumeration just the
  same.
\<close>

theorem enumeration_failure_absorbed:
  "fst (detectNetworkInterfaces None this e) = [] \<and>
   monitor_iteration None lastInterfaces this e = monitor_iteration (Some []) lastInterfaces this e \<and>
   monitorThread_loop ((None, stop_called) # ticks) lastInterfaces this e =
     monitorThread_loop ((Some [], stop_called) # ticks) lastInterfaces this e \<and>
   (extract_ips (fst (detectNetworkInterfaces g this e)) [] = [] \<longrightarrow>
      haveInterfacesChanged lastInterfaces (fst (detectNetworkInterfaces g this e)) =
      haveInterfacesChanged lastInterfaces (fst (detectNetworkInterfaces None this e))) \<and>
   (case monitor_iteration None lastInterfaces this e of
      Returns (lastInterfaces', this', e') \<Rightarrow>
        lastInterfaces' = [] \<and> m_running this' = m_running this \<and>
        (m_running this \<longrightarrow>
           monitorThread_loop ((None, False) # ticks) lastInterfaces this e =
           monitorThread_loop ticks [] this' e')
    | Blocks (lastInterfaces', this', e') \<Rightarrow>
        extract_ips lastInterfaces [] \<noteq> [] \<and> list_ex calls_monitor (m_callbacks this) \<and>
        m_running this' = m_running this) \<and>
   (extract_ips lastInterfaces [] = [] \<or> \<not> list_ex calls_monitor (m_callbacks this) \<longrightarrow>
      (\<exists>this' e'. monitor_iteration None lastInterfaces this e = Returns ([], this', e')))"
proof -
  have n: "detectNetworkInterfaces None this e = ([], this, e)"
    "detectNetworkInterfaces (Some []) this e = ([], this, e)"
    by (simp_all add: detectNetworkInterfaces_def)
  have a: "monitor_iteration None lastInterfaces this e = monitor_iteration (Some []) lastInterfaces this e"
    by (simp add: monitor_iteration_eq [OF n(1)] monitor_iteration_eq [OF n(2)])
  then have l: "monitorThread_loop ((None, stop_called) # ticks) lastInterfaces this e =
     monitorThread_loop ((Some [], stop_called) # ticks) lastInterfaces this e"
    by simp
  have b: "extract_ips (fst (detectNetworkInterfaces g this e)) [] = [] \<Longrightarrow>
      haveInterfacesChanged lastInterfaces (fst (detectNetworkInterfaces g this e)) =
      haveInterfacesChanged lastInterfaces (fst (detectNetworkInterfaces None this e))"
    by (simp add: haveInterfacesChanged_mset n)
  have ch: "haveInterfacesChanged lastInterfaces [] \<longleftrightarrow> extract_ips lastInterfaces [] \<noteq> []"
    by (simp add: haveInterfacesChanged_mset)
  have c: "(case monitor_iteration None lastInterfaces this e of
      Returns (lastInterfaces', this', e') \<Rightarrow>
        lastInterfaces' = [] \<and> m_running this' = m_running this \<and>
        (m_running this \<longrightarrow>
           monitorThread_loop ((None, False) # ticks) lastInterfaces this e =
           monitorThread_loop ticks [] this' e')
    | Blocks (lastInterfaces', this', e') \<Rightarrow>
        extract_ips lastInterfaces [] \<noteq> [] \<and> list_ex calls_monitor (m_callbacks this) \<and>
        m_running this' = m_running this)"
  proof (cases "list_ex calls_monitor (m_callbacks this)")
    case True
    from run_callbacks_blocking [OF True, of "[]" "host e"]
    obtain w where "run_callbacks (m_callbacks this) [] (host e) = Blocks w" by blast
    with True show ?thesis
      by (simp add: monitor_iteration_eq [OF n(1)] ch)
  next
    case False
    show ?thesis
      by (simp add: monitor_iteration_eq [OF n(1)] ch run_callbacks_returning [OF False])
  qed
  have r: "extract_ips lastInterfaces [] = [] \<or> \<not> list_ex calls_monitor (m_callbacks this) \<Longrightarrow>
      \<exists>this' e'. monitor_iteration None lastInterfaces this e = Returns ([], this', e')"
  proof (cases "extract_ips lastInterfaces [] = []")
    case True
    then show ?thesis by (simp add: monitor_iteration_eq [OF n(1)] ch)
  next
    case False
    assume "extract_ips lastInterfaces [] = [] \<or> \<not> list_ex calls_monitor (m_callbacks this)"
    with False have "\<not> list_ex calls_monitor (m_callbacks this)" by simp
    from run_callbacks_returning [OF this] False show ?thesis
      by (simp add: monitor_iteration_eq [OF n(1)] ch)
  qed
  from n a l b c r show ?thesis by (simp del: monitorThread_loop.simps)
qed

theorem enumeration_failure_absorbed_witness:
  "monitorThread_loop [(None, False), (Some ex_host, True)] [ex_eth0]
      (ex_running :: unit NetworkMonitor) (ex_env ()) =
     Returns ([ex_eth0], \<lparr>m_running = False, m_interfaces = [ex_eth0], m_callbacks = []\<rparr>, ex_env ())"
proof -
  have r: "m_running (ex_running :: unit NetworkMonitor)"
    by (simp add: ex_running_def)
  have m: "monitor_iteration None [ex_eth0] (ex_running :: unit NetworkMonitor) (ex_env ()) =
      Returns ([], ex_running\<lparr>m_interfaces := []\<rparr>, ex_env ())"
    by (simp add: monitor_iteration_def detectNetworkInterfaces_def haveInterfacesChanged_def
        notifyNetworkChange_def ex_eth0_def ex_running_def ex_env_def)
  have d: "detectNetworkInterfaces (Some ex_host) (ex_running\<lparr>m_interfaces := []\<rparr> :: unit NetworkMonitor) (ex_env ())
      = ([ex_eth0], ex_running\<lparr>m_interfaces := []\<rparr>, ex_env ())"
    using detect_ex_host [of "ex_running\<lparr>m_interfaces := []\<rparr> :: unit NetworkMonitor" "ex_env ()"]
      detectNetworkInterfaces_triple [of "Some ex_host" "ex_running\<lparr>m_interfaces := []\<rparr> :: unit NetworkMonitor" "ex_env ()"]
    by auto
  have k: "monitorThread_loop [(Some ex_host, True)] [] (ex_running\<lparr>m_interfaces := []\<rparr> :: unit NetworkMonitor) (ex_env ())
      = Returns ([ex_eth0], \<lparr>m_running = False, m_interfaces = [ex_eth0], m_callbacks = []\<rparr>, ex_env ())"
    by (simp add: monitor_iteration_eq [OF d] haveInterfacesChanged_ex stop_def)
      (simp add: ex_running_def ex_env_def stop_def)
  note t = enumeration_failure_absorbed [where this = "ex_running :: unit NetworkMonitor" and e = "ex_env ()"
      and lastInterfaces = "[ex_eth0]" and ticks = "[(Some ex_host, True)]" and g = None
      and stop_called = False]
  have "monitorThread_loop ((None, False) # [(Some ex_host, True)]) [ex_eth0]
        (ex_running :: unit NetworkMonitor) (ex_env ()) =
      monitorThread_loop [(Some ex_host, True)] [] (ex_running\<lparr>m_interfaces := []\<rparr>) (ex_env ())"
    using t [THEN conjunct2, THEN conjunct2, THEN conjunct2, THEN conjunct2, THEN conjunct1] r
    unfolding m by (simp del: monitorThread_loop.simps)
  with k show ?thesis by (simp del: monitorThread_loop.simps)
qed

end
